theory Spec2Isabelle
  imports Main "HOL-Library.Word"
begin

unbundle bit_operations_syntax

section \<open>The Internet checksum of the network server\<close>

text \<open>
  \<^verbatim>\<open>servers/netserver/include/netserver/ip/checksum.cpp\<close> keeps one accumulator,
  \<^verbatim>\<open>Checksum::state\<close>. Its declaration (\<^verbatim>\<open>checksum.hpp\<close>) is not among the
  sources, so the type of the accumulator is a parameter of the model: an unsigned
  integer of \<open>LENGTH('a)\<close> bits. The operators of the source are modelled at that
  type, which is what C++ does for an unsigned type at least as wide as \<open>int\<close>
  (the integer promotions leave it alone); the theorems below therefore ask for
  \<open>32 \<le> LENGTH('a)\<close>. A \<open>Checksum\<close> object is its accumulator.
\<close>

text \<open>\<^verbatim>\<open>void Checksum::update(uint16_t word) { state += word; }\<close>\<close>

definition update_word :: "'a::len word \<Rightarrow> 16 word \<Rightarrow> 'a word" where
  "update_word state w = state + ucast w"

text \<open>
  The byte buffer behind \<^verbatim>\<open>void *data\<close>: the byte at a signed offset from
  \<open>data\<close>, or \<open>None\<close> where the offset is outside the object \<open>data\<close> points into.
  \<open>buffer bs\<close> is the case where \<open>data\<close> points at the first byte of an array
  holding exactly \<open>bs\<close>; \<open>subbuffer obj base\<close> is the case where \<open>data\<close> points
  at element \<open>base\<close> of a larger array \<open>obj\<close>.
\<close>

definition buffer :: "8 word list \<Rightarrow> int \<Rightarrow> 8 word option" where
  "buffer bs i = (if 0 \<le> i \<and> i < int (length bs) then Some (bs ! nat i) else None)"

definition subbuffer :: "8 word list \<Rightarrow> nat \<Rightarrow> int \<Rightarrow> 8 word option" where
  "subbuffer obj base i = buffer obj (int base + i)"

text \<open>
  The two expressions handed to \<open>update(uint16_t)\<close>. The bytes are promoted to
  \<open>int\<close> (32 bits), shifted and combined there, and the result is converted to
  \<open>uint16_t\<close>: \<^verbatim>\<open>iter[0] << 8 | iter[1]\<close> and \<^verbatim>\<open>iter[size - 1] << 8\<close>.
\<close>

definition be16 :: "8 word \<Rightarrow> 8 word \<Rightarrow> 16 word" where
  "be16 b0 b1 = ucast (push_bit 8 (ucast b0 :: 32 word) OR ucast b1)"

definition hi16 :: "8 word \<Rightarrow> 16 word" where
  "hi16 b = ucast (push_bit 8 (ucast b :: 32 word))"

text \<open>
  \<^verbatim>\<open>for (; iter < end; iter += 2) update(iter[0] << 8 | iter[1]);\<close>
  with \<open>iter\<close> and \<open>end\<close> as offsets from \<open>data\<close>. A read outside the object ends
  the run with \<open>None\<close>.
\<close>

function update_loop ::
  "(int \<Rightarrow> 8 word option) \<Rightarrow> int \<Rightarrow> int \<Rightarrow> 'a::len word \<Rightarrow> 'a word option" where
  "update_loop mem iter end' state =
     (if iter < end' then
        (case mem iter of
           None \<Rightarrow> None
         | Some b0 \<Rightarrow>
            (case mem (iter + 1) of
               None \<Rightarrow> None
             | Some b1 \<Rightarrow> update_loop mem (iter + 2) end' (update_word state (be16 b0 b1))))
      else Some state)"
  by pat_completeness auto
termination
  by (relation "measure (\<lambda>(mem, iter, end', state). nat (end' - iter))") auto

declare update_loop.simps [simp del]

text \<open>
  \<^verbatim>\<open>void Checksum::update(void *data, size_t size)\<close>. For an odd \<open>size\<close> the source
  first decrements \<open>iter\<close> (\<^verbatim>\<open>iter--\<close>), then reads \<^verbatim>\<open>iter[size - 1]\<close>, and the
  loop runs from the decremented \<open>iter\<close> to \<^verbatim>\<open>iter + size\<close>. \<open>size\<close> is a
  \<open>size_t\<close>; \<open>size - 1\<close> is only computed for an odd size, so nothing wraps and the
  size is a natural number here.
\<close>

definition update_data :: "(int \<Rightarrow> 8 word option) \<Rightarrow> nat \<Rightarrow> 'a::len word \<Rightarrow> 'a word option" where
  "update_data mem size' state =
     (if size' mod 2 \<noteq> 0 then
        (let iter = 0 - 1 in
         case mem (iter + (int size' - 1)) of
           None \<Rightarrow> None
         | Some b \<Rightarrow> update_loop mem iter (iter + int size') (update_word state (hi16 b)))
      else update_loop mem 0 (0 + int size') state)"

text \<open>A sequence of \<open>update(uint16_t)\<close> calls, in order.\<close>

definition update_words :: "'a::len word \<Rightarrow> 16 word list \<Rightarrow> 'a word" where
  "update_words state ws = foldl update_word state ws"

lemma fold_step_less: "s div 65536 \<noteq> 0 \<Longrightarrow> s div 65536 + s mod 65536 < (s::nat)"
proof -
  assume h: "s div 65536 \<noteq> 0"
  have "s = 65536 * (s div 65536) + s mod 65536"
    by (rule mult_div_mod_eq [symmetric])
  then show ?thesis using h by linarith
qed

lemma mask16: "(0xffff :: 'a::len word) = mask 16"
  by (simp add: mask_eq_exp_minus_1)

lemma unat_shift16: "unat (drop_bit 16 (st :: 'a::len word)) = unat st div 65536"
  unfolding unat_drop_bit_eq by (simp add: drop_bit_eq_div)

lemma unat_low16: "unat ((st :: 'a::len word) AND 0xffff) = unat st mod 65536"
proof -
  have "st AND 0xffff = take_bit 16 st"
    unfolding mask16 by (rule take_bit_eq_mask [symmetric])
  then have "unat (st AND 0xffff) = take_bit 16 (unat st)"
    by (simp only: unsigned_take_bit_eq)
  then show ?thesis by (simp add: take_bit_eq_mod)
qed

lemma finalize_step_less:
  assumes "drop_bit 16 (st :: 'a::len word) \<noteq> 0"
  shows "unat (drop_bit 16 st + (st AND 0xffff)) < unat st"
proof -
  have "unat (drop_bit 16 st + (st AND 0xffff)) \<le> unat (drop_bit 16 st) + unat (st AND 0xffff)"
    by (simp add: unat_word_ariths)
  moreover from assms have "unat (drop_bit 16 st) \<noteq> 0"
    by (simp add: unat_eq_0)
  then have "unat st div 65536 + unat st mod 65536 < unat st"
    unfolding unat_shift16 by (rule fold_step_less)
  ultimately show ?thesis
    unfolding unat_shift16 unat_low16 by linarith
qed

text \<open>
  \<^verbatim>\<open>uint16_t Checksum::finalize()\<close>: the loop on a local copy of the accumulator,
  then \<^verbatim>\<open>return ~state;\<close>, converted to \<open>uint16_t\<close>.
\<close>

function finalize_loop :: "'a::len word \<Rightarrow> 'a word" where
  "finalize_loop state =
     (if drop_bit 16 state \<noteq> 0
      then finalize_loop (drop_bit 16 state + (state AND 0xffff))
      else state)"
  by pat_completeness auto
termination
  by (relation "measure unat") (auto simp: finalize_step_less)

declare finalize_loop.simps [simp del]

definition finalize :: "'a::len word \<Rightarrow> 16 word" where
  "finalize state = ucast (NOT (finalize_loop state))"

text \<open>
  The accumulator of a fresh \<open>Checksum\<close>. The member initialiser is in
  \<^verbatim>\<open>checksum.hpp\<close>; no constructor or reset in \<^verbatim>\<open>checksum.cpp\<close> assigns the
  accumulator, and the sum starts from zero.
\<close>

definition fresh :: "'a::len word" where
  "fresh = 0"

subsection \<open>The checksum in the words of the specification\<close>

text \<open>
  The end-around-carry fold of a natural number: add the bits above bit 16 into the
  low 16 bits until none remain.
\<close>

function spec_fold16 :: "nat \<Rightarrow> nat" where
  "spec_fold16 s = (if s div 65536 \<noteq> 0 then spec_fold16 (s div 65536 + s mod 65536) else s)"
  by pat_completeness auto
termination
  by (relation "measure id") (auto simp: fold_step_less)

declare spec_fold16.simps [simp del]

text \<open>
  The words the specification reads from a buffer: big-endian pairs, and for an odd
  length one last word made of the trailing byte and a zero low byte.
\<close>

fun spec_words :: "8 word list \<Rightarrow> 16 word list" where
  "spec_words (b0 # b1 # bs) = be16 b0 b1 # spec_words bs"
| "spec_words [b] = [hi16 b]"
| "spec_words [] = []"

subsection \<open>What the checksum computes\<close>

lemma spec_fold16_lt: "spec_fold16 s < 65536"
proof (induction s rule: spec_fold16.induct)
  case (1 s)
  then show ?case
    by (subst spec_fold16.simps) (auto simp: div_eq_0_iff)
qed

lemma finalize_loop_unat: "unat (finalize_loop (st :: 'a::len word)) = spec_fold16 (unat st)"
proof (induction st rule: finalize_loop.induct)
  case (1 st)
  show ?case
  proof (cases "drop_bit 16 st = 0")
    case True
    then have "unat st div 65536 = 0"
      using unat_shift16 [of st] by simp
    then show ?thesis
      using True by (subst finalize_loop.simps, subst spec_fold16.simps) simp
  next
    case False
    then have "unat (drop_bit 16 st) \<noteq> 0"
      by (simp add: unat_eq_0)
    then have nz: "unat st div 65536 \<noteq> 0"
      unfolding unat_shift16 .
    have "unat st div 65536 + unat st mod 65536 < 2 ^ LENGTH('a)"
      by (rule less_trans [OF fold_step_less [OF nz]]) (rule unsigned_less)
    then have "unat (drop_bit 16 st + (st AND 0xffff)) = unat st div 65536 + unat st mod 65536"
      by (simp add: unat_word_ariths unat_shift16 unat_low16)
    then show ?thesis
      using False nz 1 by (subst finalize_loop.simps, subst spec_fold16.simps) simp
  qed
qed

lemma ucast_NOT_16:
  assumes "16 \<le> LENGTH('a::len)"
  shows "(ucast (NOT (x :: 'a word)) :: 16 word) = NOT (ucast x)"
  using assms by (intro bit_word_eqI) (auto simp: bit_simps)

lemma finalize_spec_fold16:
  assumes "16 \<le> LENGTH('a::len)"
  shows "finalize (st :: 'a word) = NOT (word_of_nat (spec_fold16 (unat st)))"
proof -
  have "(ucast (finalize_loop st) :: 16 word) = word_of_nat (unat (finalize_loop st))"
    by simp
  then show ?thesis
    by (simp only: finalize_def ucast_NOT_16 [OF assms] finalize_loop_unat)
qed

lemma update_words_sum:
  "update_words (st :: 'a::len word) ws = st + word_of_nat (sum_list (map unat ws))"
  unfolding update_words_def
  by (induction ws arbitrary: st) (simp_all add: update_word_def add.assoc)

lemma unat_0x2DDF0:
  assumes "32 \<le> LENGTH('a::len)"
  shows "unat (0x2DDF0 :: 'a word) = 0x2DDF0"
proof -
  have "(2::nat) ^ 32 \<le> 2 ^ LENGTH('a)"
    using assms by (rule power_increasing) simp
  moreover have "(0x2DDF0 :: nat) < 2 ^ 32"
    by simp
  ultimately have "(0x2DDF0 :: nat) < 2 ^ LENGTH('a)"
    by (rule less_le_trans [rotated])
  then show ?thesis
    by (simp add: take_bit_nat_eq_self)
qed

lemma scenario_S6_state:
  "update_data (buffer [0x00, 0x01, 0xF2, 0x03, 0xF4, 0xF5, 0xF6, 0xF7]) 8 (fresh :: 'a::len word)
     = Some 0x2DDF0"
  by (simp add: update_data_def update_loop.simps buffer_def be16_def update_word_def fresh_def)

text \<open>
  For a buffer of even length, read from its first byte, every access is inside the
  buffer and the accumulator grows by the big-endian words of the buffer.
\<close>

lemma update_loop_even:
  assumes "k \<le> length bs" and "even (length bs - k)"
  shows "update_loop (buffer bs) (int k) (int (length bs)) (st :: 'a::len word)
           = Some (update_words st (spec_words (drop k bs)))"
  using assms
proof (induction "length bs - k" arbitrary: k st rule: less_induct)
  case less
  show ?case
  proof (cases "k < length bs")
    case False
    then show ?thesis
      using less.prems by (simp add: update_loop.simps update_words_def)
  next
    case True
    with less.prems have k2: "k + 2 \<le> length bs"
      by presburger
    then obtain b0 b1 where d: "drop k bs = b0 # b1 # drop (k + 2) bs"
      and b0: "bs ! k = b0" and b1: "bs ! (k + 1) = b1"
      by (metis Cons_nth_drop_Suc Suc_eq_plus1 add_2_eq_Suc' less_iff_succ_less_eq True
          Suc_le_lessD add_Suc_right one_add_one)
    have "update_loop (buffer bs) (int (k + 2)) (int (length bs)) (update_word st (be16 b0 b1))
            = Some (update_words (update_word st (be16 b0 b1)) (spec_words (drop (k + 2) bs)))"
      using k2 less.prems True by (intro less.hyps) auto
    then show ?thesis
      using True k2 b0 b1
      by (subst update_loop.simps)
        (simp add: d buffer_def update_words_def nat_add_distrib add.commute)
  qed
qed

lemma update_data_even:
  assumes "even (length bs)"
  shows "update_data (buffer bs) (length bs) (st :: 'a::len word)
           = Some (update_words st (spec_words bs))"
  using update_loop_even [of 0 bs st] assms by (simp add: update_data_def)

text \<open>
  For a buffer of odd length, read from its first byte, the run always reads the byte
  before the buffer: \<open>iter\<close> is decremented before the loop starts.
\<close>

lemma update_data_odd:
  assumes "odd (length bs)"
  shows "update_data (buffer bs) (length bs) (st :: 'a::len word) = None"
proof -
  have "buffer bs (- 1) = None"
    by (simp add: buffer_def)
  then show ?thesis
    using assms
    by (auto simp: update_data_def Let_def update_loop.simps odd_iff_mod_2_eq_one
        split: option.splits)
qed

text \<open>
  C1. From a fresh \<open>Checksum\<close>, \<open>update(data, 8)\<close> on the bytes
  \<open>00 01 F2 03 F4 F5 F6 F7\<close> followed by \<open>finalize()\<close> returns \<open>0x220D\<close>:
  every read is inside the buffer, and the result is that value, for every
  accumulator of at least 32 bits.
\<close>

theorem checksum_scenario_S6:
  assumes "32 \<le> LENGTH('a::len)"
  shows "map_option finalize
           (update_data (buffer [0x00, 0x01, 0xF2, 0x03, 0xF4, 0xF5, 0xF6, 0xF7]) 8
              (fresh :: 'a word))
         = Some 0x220D"
proof -
  from assms have "16 \<le> LENGTH('a)"
    by simp
  then have "finalize (0x2DDF0 :: 'a word) = NOT (word_of_nat (spec_fold16 0x2DDF0))"
    by (simp only: finalize_spec_fold16 unat_0x2DDF0 [OF assms])
  moreover have "spec_fold16 0x2DDF0 = 0xDDF2"
    by (simp add: spec_fold16.simps)
  ultimately show ?thesis
    by (simp add: scenario_S6_state)
qed

theorem checksum_scenario_S6_witness:
  "32 \<le> LENGTH(32) \<and>
   map_option finalize
     (update_data (buffer [0x00, 0x01, 0xF2, 0x03, 0xF4, 0xF5, 0xF6, 0xF7]) 8 (fresh :: 32 word))
   = Some 0x220D"
  using checksum_scenario_S6 [where 'a = 32] by simp

text \<open>
  C2 (the code differs). The claim: for a buffer of odd length \<open>n\<close>, \<open>update\<close> adds the
  big-endian words of the first \<open>n - 1\<close> bytes and one last word \<open>data[n-1] << 8\<close>;
  for the bytes \<open>01 02 03\<close> that is \<open>0x0102 + 0x0300 = 0x0402\<close>. The code decrements
  \<open>iter\<close> first, so it reads \<open>data[-1]\<close>: with the three bytes alone the read is
  outside the buffer, and with a byte \<open>EE\<close> in front of them (the buffer starts at
  the second byte of a larger array) it adds \<open>0x0200 + 0xEE01 + 0x0203 = 0xF204\<close>.
\<close>

theorem update_data_odd_divergence:
  "update_data (buffer [0x01, 0x02, 0x03]) 3 (fresh :: 32 word) = None \<and>
   update_data (subbuffer [0xEE, 0x01, 0x02, 0x03] 1) 3 (fresh :: 32 word) = Some 0xF204 \<and>
   update_words (fresh :: 32 word) (spec_words [0x01, 0x02, 0x03]) = 0x0402"
  by (simp add: update_data_def update_loop.simps buffer_def subbuffer_def be16_def hi16_def
      update_word_def update_words_def fresh_def)

text \<open>
  C4, as amended. After a sequence of \<open>update(uint16_t)\<close> calls on a fresh
  \<open>Checksum\<close> whose plain integer sum \<open>s\<close> fits the accumulator
  (\<open>s < 2 ^ LENGTH('a)\<close>), \<open>finalize()\<close> returns the bitwise NOT of the
  end-around-carry fold of \<open>s\<close>, as a 16-bit value. Whatever the sum, the
  accumulator holds \<open>s mod 2 ^ LENGTH('a)\<close> and \<open>finalize()\<close> returns the result
  for that number.
\<close>

theorem finalize_ones_complement:
  assumes "32 \<le> LENGTH('a::len)"
  shows "(sum_list (map unat ws) < 2 ^ LENGTH('a) \<longrightarrow>
            finalize (update_words (fresh :: 'a word) ws)
              = NOT (word_of_nat (spec_fold16 (sum_list (map unat ws)))))
         \<and> finalize (update_words (fresh :: 'a word) ws)
              = NOT (word_of_nat (spec_fold16 (sum_list (map unat ws) mod 2 ^ LENGTH('a))))"
proof -
  have "unat (update_words (fresh :: 'a word) ws) = sum_list (map unat ws) mod 2 ^ LENGTH('a)"
    by (simp add: update_words_sum fresh_def unat_of_nat)
  moreover have "16 \<le> LENGTH('a)"
    using assms by simp
  ultimately have
    "finalize (update_words (fresh :: 'a word) ws)
       = NOT (word_of_nat (spec_fold16 (sum_list (map unat ws) mod 2 ^ LENGTH('a))))"
    by (simp add: finalize_spec_fold16)
  then show ?thesis
    by simp
qed

theorem finalize_ones_complement_witness:
  "32 \<le> LENGTH(32) \<and>
   sum_list (map unat [0xFFFF, 0xFFFF, 0x0003 :: 16 word]) < 2 ^ LENGTH(32) \<and>
   finalize (update_words (fresh :: 32 word) [0xFFFF, 0xFFFF, 0x0003]) = 0xFFFC"
proof -
  have "spec_fold16 0x20001 = 3"
    by (simp add: spec_fold16.simps)
  then show ?thesis
    using finalize_ones_complement [where 'a = 32 and ws = "[0xFFFF, 0xFFFF, 0x0003]"]
    by simp
qed

text \<open>
  C4 as stated fails once the sum passes the accumulator: with a 32-bit accumulator,
  65537 words \<open>0xFFFF\<close> and one word \<open>0x0001\<close> sum to \<open>2 ^ 32\<close>; the accumulator
  wraps to 0 and \<open>finalize()\<close> returns \<open>0xFFFF\<close>, while the fold of \<open>2 ^ 32\<close> is 1
  and its complement \<open>0xFFFE\<close>.
\<close>

theorem finalize_ones_complement_counterexample:
  "sum_list (map unat (replicate 65537 (0xFFFF :: 16 word) @ [1])) = 2 ^ 32 \<and>
   finalize (update_words (fresh :: 32 word) (replicate 65537 0xFFFF @ [1])) = 0xFFFF \<and>
   NOT (word_of_nat (spec_fold16 (sum_list (map unat (replicate 65537 (0xFFFF :: 16 word) @ [1]))))
          :: 16 word) = 0xFFFE"
proof -
  have s: "sum_list (map unat (replicate 65537 (0xFFFF :: 16 word) @ [1])) = 4294967296"
    by (simp only: map_append map_replicate sum_list_append sum_list_replicate list.map
        sum_list.Cons sum_list.Nil) simp
  have "update_words (fresh :: 32 word) (replicate 65537 0xFFFF @ [1]) = 0"
    by (simp only: update_words_sum s) (simp add: fresh_def)
  moreover have "spec_fold16 0 = 0" and "spec_fold16 4294967296 = 1"
    by (simp_all add: spec_fold16.simps)
  ultimately show ?thesis
    by (simp only: s) (simp add: finalize_spec_fold16)
qed

text \<open>
  C9 (the code differs). The claim: \<open>update(data, size)\<close> reads only offsets in
  \<open>[0, size)\<close>, odd sizes included. For the one-byte buffer \<open>AB\<close> and \<open>size = 1\<close>
  the code reads \<open>iter[size - 1]\<close> after \<open>iter--\<close>, that is offset \<open>-1\<close>, and the
  run ends on the out-of-bounds read.
\<close>

theorem update_data_odd_out_of_bounds:
  "buffer [0xAB] (- 1) = None \<and> update_data (buffer [0xAB]) 1 (fresh :: 32 word) = None"
  by (simp add: update_data_def buffer_def)

section \<open>The program loader: \<^verbatim>\<open>readObject\<close>\<close>

text \<open>
  \<^verbatim>\<open>readObject\<close> maps an ELF image and walks its program headers. The ELF types
  and constants come from \<^verbatim>\<open>frigg/elf.hpp\<close>, which is not among the sources: the
  records below hold the fields of \<open>Elf64_Ehdr\<close> and \<open>Elf64_Phdr\<close> that
  \<^verbatim>\<open>readObject\<close> reads, with their ELF-64 widths, and the constants have their
  ELF-64 values. \<open>uintptr_t\<close> and \<open>size_t\<close> are 64 bits, \<open>Elf64_Word\<close> is 32 bits.
\<close>

type_synonym Elf64_Word = "32 word"
type_synonym uintptr_t = "64 word"
type_synonym size_t = "64 word"
type_synonym HelHandle = "64 word"

record Elf64_Ehdr =
  e_ident :: "8 word list"
  e_type :: "16 word"
  e_entry :: uintptr_t
  e_phoff :: uintptr_t
  e_phentsize :: "16 word"
  e_phnum :: "16 word"

record Elf64_Phdr =
  p_type :: Elf64_Word
  p_flags :: Elf64_Word
  p_offset :: uintptr_t
  p_vaddr :: uintptr_t
  p_filesz :: size_t
  p_memsz :: size_t

definition PT_LOAD :: Elf64_Word where "PT_LOAD = 1"
definition PT_DYNAMIC :: Elf64_Word where "PT_DYNAMIC = 2"
definition PF_X :: Elf64_Word where "PF_X = 1"
definition PF_W :: Elf64_Word where "PF_W = 2"
definition PF_R :: Elf64_Word where "PF_R = 4"
definition ET_EXEC :: "16 word" where "ET_EXEC = 2"
definition ET_DYN :: "16 word" where "ET_DYN = 3"

text \<open>\<^verbatim>\<open>constexpr size_t kPageSize = 0x1000;\<close>\<close>

definition kPageSize :: size_t where
  "kPageSize = 0x1000"

record BaseSegment =
  elfType :: Elf64_Word
  elfFlags :: Elf64_Word
  virtAddress :: uintptr_t
  virtLength :: size_t

record SharedSegment = BaseSegment +
  memory :: HelHandle

record UniqueSegment = BaseSegment +
  fileDisplacement :: uintptr_t
  fileOffset :: uintptr_t
  fileLength :: size_t

text \<open>\<^verbatim>\<open>typedef util::Variant<SharedSegment, UniqueSegment> Segment;\<close>\<close>

datatype Segment = Shared SharedSegment | Unique UniqueSegment

record Object =
  imagePtr :: uintptr_t
  entry :: uintptr_t
  dynamic :: uintptr_t
  segments :: "Segment list"

text \<open>
  How a run of \<^verbatim>\<open>readObject\<close> can stop: a failed \<open>ASSERT\<close>, or the panic logger
  (\<open>Illegal combination of segment permissions\<close>).
\<close>

datatype loader_error = AssertionFailed | Panic

text \<open>
  The segment pushed for a \<open>PT_LOAD\<close> header: the address is aligned down to the
  page size, the length is taken from the aligned address to the end of the segment
  and rounded up to the page size. All arithmetic is that of \<open>uintptr_t\<close> and
  \<open>size_t\<close>: it wraps at \<open>2 ^ 64\<close>.
\<close>

definition load_segment :: "Elf64_Phdr \<Rightarrow> UniqueSegment" where
  "load_segment phdr =
     (let virt_address = p_vaddr phdr;
          virt_address = virt_address - virt_address mod kPageSize;
          virt_length = (p_vaddr phdr + p_memsz phdr) - virt_address;
          virt_length = (if virt_length mod kPageSize \<noteq> 0
                         then virt_length + (kPageSize - virt_length mod kPageSize)
                         else virt_length)
      in \<lparr>elfType = p_type phdr, elfFlags = p_flags phdr,
          virtAddress = virt_address, virtLength = virt_length,
          fileDisplacement = p_vaddr phdr - virt_address,
          fileOffset = p_offset phdr, fileLength = p_filesz phdr\<rparr>)"

text \<open>The body of the loop over the program headers, for one header.\<close>

definition read_phdr :: "Object \<Rightarrow> Elf64_Phdr \<Rightarrow> loader_error + Object" where
  "read_phdr object phdr =
     (if p_type phdr = PT_LOAD then
        (if p_flags phdr AND (PF_R OR PF_W OR PF_X) \<noteq> (PF_R OR PF_W)
            \<and> p_flags phdr AND (PF_R OR PF_W OR PF_X) \<noteq> (PF_R OR PF_X)
         then Inl Panic
         else if \<not> p_memsz phdr > 0 then Inl AssertionFailed
         else Inr (object\<lparr>segments := segments object @ [Unique (load_segment phdr)]\<rparr>))
      else if p_type phdr = PT_DYNAMIC then Inr (object\<lparr>dynamic := p_vaddr phdr\<rparr>)
      else Inr object)"

text \<open>The loop body applied to a sequence of headers, stopping at the first failure.\<close>

fun read_phdrs :: "Object \<Rightarrow> Elf64_Phdr list \<Rightarrow> loader_error + Object" where
  "read_phdrs object [] = Inr object"
| "read_phdrs object (phdr # phdrs) =
     (case read_phdr object phdr of
        Inl e \<Rightarrow> Inl e
      | Inr object' \<Rightarrow> read_phdrs object' phdrs)"

text \<open>
  \<^verbatim>\<open>readObject\<close> from the mapped image on: the two assertions on the ELF header
  (the magic is \<open>0x7F 'E' 'L' 'F'\<close> in \<open>e_ident[0..3]\<close>), the new \<open>Object\<close>
  (\<open>entry(0), dynamic(0)\<close>, no segments), and the loop
  \<^verbatim>\<open>for(int i = 0; i < ehdr->e_phnum; i++)\<close>. The header of index \<open>i\<close> is read from
  the image at \<open>e_phoff + i * e_phentsize\<close>; \<open>phdr_at i\<close> is the header found there.
\<close>

definition readObject ::
  "uintptr_t \<Rightarrow> Elf64_Ehdr \<Rightarrow> (nat \<Rightarrow> Elf64_Phdr) \<Rightarrow> loader_error + Object" where
  "readObject image_ptr ehdr phdr_at =
     (if take 4 (e_ident ehdr) \<noteq> [0x7F, 0x45, 0x4C, 0x46] then Inl AssertionFailed
      else if \<not> (e_type ehdr = ET_EXEC \<or> e_type ehdr = ET_DYN) then Inl AssertionFailed
      else read_phdrs \<lparr>imagePtr = image_ptr, entry = e_entry ehdr, dynamic = 0, segments = []\<rparr>
             (map phdr_at [0..<unat (e_phnum ehdr)]))"

text \<open>Example inputs: an executable's header, a text segment, a dynamic section, a
  load header whose length reaches the end of the address space, and a program header
  table that holds the text segment and the dynamic section.\<close>

definition sample_ehdr :: Elf64_Ehdr where
  "sample_ehdr =
     \<lparr>e_ident = [0x7F, 0x45, 0x4C, 0x46, 2, 1, 1, 0, 0, 0, 0, 0, 0, 0, 0, 0], e_type = 2,
      e_entry = 0x401000, e_phoff = 64, e_phentsize = 56, e_phnum = 2\<rparr>"

definition sample_text_phdr :: Elf64_Phdr where
  "sample_text_phdr =
     \<lparr>p_type = 1, p_flags = 5, p_offset = 0x234, p_vaddr = 0x401234,
      p_filesz = 0x100, p_memsz = 0x1E00\<rparr>"

definition sample_dynamic_phdr :: Elf64_Phdr where
  "sample_dynamic_phdr =
     \<lparr>p_type = 2, p_flags = 6, p_offset = 0x334, p_vaddr = 0x402000,
      p_filesz = 0x100, p_memsz = 0x100\<rparr>"

definition wrapping_phdr :: Elf64_Phdr where
  "wrapping_phdr =
     \<lparr>p_type = 1, p_flags = 6, p_offset = 0, p_vaddr = 0,
      p_filesz = 0, p_memsz = 0xFFFFFFFFFFFFFFFF\<rparr>"

definition sample_table :: "nat \<Rightarrow> Elf64_Phdr" where
  "sample_table i = (if i = 0 then sample_text_phdr else sample_dynamic_phdr)"

subsection \<open>The segments \<^verbatim>\<open>readObject\<close> records\<close>

lemma read_phdrs_segments:
  "read_phdrs object phdrs = Inr object' \<Longrightarrow>
   segments object' =
     segments object
       @ map (\<lambda>ph. Unique (load_segment ph)) (filter (\<lambda>ph. p_type ph = PT_LOAD) phdrs)
   \<and> (\<forall>ph \<in> set phdrs. p_type ph = PT_LOAD \<longrightarrow> 0 < p_memsz ph)"
proof (induction phdrs arbitrary: object)
  case Nil
  then show ?case by simp
next
  case (Cons ph phdrs)
  then obtain o1 where 1: "read_phdr object ph = Inr o1"
    and 2: "read_phdrs o1 phdrs = Inr object'"
    by (auto split: sum.splits)
  from 1 have
    "segments o1
       = segments object @ (if p_type ph = PT_LOAD then [Unique (load_segment ph)] else [])"
    and "p_type ph = PT_LOAD \<longrightarrow> 0 < p_memsz ph"
    by (auto simp: read_phdr_def split: if_splits)
  with Cons.IH [OF 2] show ?case by auto
qed

lemma virtAddress_load_segment:
  "virtAddress (load_segment ph) = p_vaddr ph - p_vaddr ph mod 0x1000"
  by (simp add: load_segment_def Let_def kPageSize_def)

lemma fileDisplacement_load_segment:
  "fileDisplacement (load_segment ph) = p_vaddr ph - virtAddress (load_segment ph)"
  by (simp add: load_segment_def Let_def kPageSize_def)

lemma virtLength_load_segment:
  "virtLength (load_segment ph) =
     (let l = p_vaddr ph + p_memsz ph - (p_vaddr ph - p_vaddr ph mod 0x1000)
      in if l mod 0x1000 \<noteq> 0 then l + (0x1000 - l mod 0x1000) else l)"
  by (simp add: load_segment_def Let_def kPageSize_def)

lemma unat_page_offset: "unat ((a :: 64 word) mod 0x1000) = unat a mod 4096"
  by (simp add: unat_mod)

lemma unat_align_down: "unat ((a :: 64 word) - a mod 0x1000) = unat a - unat a mod 4096"
proof -
  have "a mod 0x1000 \<le> a"
    by (simp add: word_le_nat_alt unat_page_offset)
  then show ?thesis
    by (simp add: unat_sub unat_page_offset)
qed

lemma unat_page_rest: "unat (0x1000 - (l :: 64 word) mod 0x1000) = 4096 - unat l mod 4096"
proof -
  have "l mod 0x1000 \<le> 0x1000"
    by (simp add: word_le_nat_alt unat_page_offset)
  then show ?thesis
    by (simp add: unat_sub unat_page_offset)
qed

text \<open>Rounding up to the page size gives a multiple of the page size, also when the
  addition wraps: the page size divides \<open>2 ^ 64\<close>.\<close>

lemma round_up_page_aligned:
  fixes l :: "64 word"
  shows "(if l mod 0x1000 \<noteq> 0 then l + (0x1000 - l mod 0x1000) else l) mod 0x1000 = 0"
proof (cases "l mod 0x1000 = 0")
  case True
  then show ?thesis by simp
next
  case False
  have "unat (l + (0x1000 - l mod 0x1000)) = (unat l + (4096 - unat l mod 4096)) mod 2 ^ 64"
    by (simp add: unat_word_ariths unat_page_rest)
  moreover have "((unat l + (4096 - unat l mod 4096)) mod 2 ^ 64) mod 4096
                   = (unat l + (4096 - unat l mod 4096)) mod 4096"
    by (rule mod_mod_cancel) simp
  moreover have "(unat l + (4096 - unat l mod 4096)) mod 4096 = 0"
  proof -
    have "unat l + (4096 - unat l mod 4096) = 4096 * (unat l div 4096) + 4096"
      using mult_div_mod_eq [of 4096 "unat l"] mod_less_divisor [of 4096 "unat l"]
      by linarith
    then show ?thesis by simp
  qed
  ultimately have "unat ((l + (0x1000 - l mod 0x1000)) mod 0x1000) = 0"
    by (simp add: unat_mod)
  then show ?thesis
    using False by (simp add: unat_eq_0)
qed

lemma virtLength_page_aligned: "virtLength (load_segment ph) mod 0x1000 = 0"
  unfolding virtLength_load_segment Let_def by (rule round_up_page_aligned)

text \<open>Where nothing wraps, the aligned window reaches the end of the loaded interval.\<close>

lemma load_segment_covers:
  assumes "unat (p_vaddr ph mod 0x1000) + unat (p_memsz ph) \<le> 2 ^ 64 - 0x1000"
  shows "unat (p_vaddr ph) + unat (p_memsz ph)
           \<le> unat (virtAddress (load_segment ph)) + unat (virtLength (load_segment ph))"
proof -
  define l where "l = p_vaddr ph + p_memsz ph - (p_vaddr ph - p_vaddr ph mod 0x1000)"
  have le: "l = p_vaddr ph mod 0x1000 + p_memsz ph"
    by (simp add: l_def)
  have ul: "unat l = unat (p_vaddr ph) mod 4096 + unat (p_memsz ph)"
    using assms unfolding le by (simp add: unat_word_ariths unat_page_offset)
  have bound: "unat l \<le> 2 ^ 64 - 4096"
    using assms by (simp add: ul unat_page_offset)
  have vl: "virtLength (load_segment ph)
              = (if l mod 0x1000 \<noteq> 0 then l + (0x1000 - l mod 0x1000) else l)"
    by (simp add: virtLength_load_segment l_def Let_def)
  have "unat l \<le> unat (virtLength (load_segment ph))"
  proof (cases "l mod 0x1000 = 0")
    case True
    then show ?thesis by (simp add: vl)
  next
    case False
    have "unat l + (4096 - unat l mod 4096) < 2 ^ 64"
    proof -
      have "unat l mod 4096 \<noteq> 0"
        using False by (simp add: unat_page_offset [symmetric] unat_eq_0)
      then show ?thesis using bound by linarith
    qed
    then have "unat (l + (0x1000 - l mod 0x1000)) = unat l + (4096 - unat l mod 4096)"
      by (simp add: unat_word_ariths unat_page_rest)
    then show ?thesis using False by (simp add: vl)
  qed
  moreover have "unat (virtAddress (load_segment ph))
                   = unat (p_vaddr ph) - unat (p_vaddr ph) mod 4096"
    by (simp add: virtAddress_load_segment unat_align_down)
  moreover have "unat (p_vaddr ph) mod 4096 \<le> unat (p_vaddr ph)"
    by simp
  ultimately show ?thesis
    using ul by linarith
qed

text \<open>
  C10, as amended. When \<^verbatim>\<open>readObject\<close> returns, the segments of the object are the
  segments of the \<open>PT_LOAD\<close> headers among the \<open>e_phnum\<close> headers of the image, in
  order; every such header has
  \<open>p_memsz > 0\<close>, and its segment has \<open>virtAddress = p_vaddr - p_vaddr mod 0x1000\<close>,
  a \<open>virtLength\<close> that is a multiple of \<open>0x1000\<close>, and
  \<open>fileDisplacement = p_vaddr - virtAddress\<close>. The window reaches the end of the
  loaded interval, \<open>virtAddress + virtLength \<ge> p_vaddr + p_memsz\<close> (as numbers),
  provided \<open>p_vaddr mod 0x1000 + p_memsz \<le> 2 ^ 64 - 0x1000\<close>, that is, provided the
  rounded length does not wrap.
\<close>

theorem readObject_load_segments:
  assumes "readObject image_ptr ehdr phdr_at = Inr object"
  shows "segments object
           = map (\<lambda>ph. Unique (load_segment ph))
               (filter (\<lambda>ph. p_type ph = PT_LOAD) (map phdr_at [0..<unat (e_phnum ehdr)]))
         \<and> (\<forall>ph \<in> phdr_at ` {..<unat (e_phnum ehdr)}. p_type ph = PT_LOAD \<longrightarrow>
               0 < p_memsz ph
             \<and> virtAddress (load_segment ph) = p_vaddr ph - p_vaddr ph mod 0x1000
             \<and> virtLength (load_segment ph) mod 0x1000 = 0
             \<and> fileDisplacement (load_segment ph) = p_vaddr ph - virtAddress (load_segment ph)
             \<and> (unat (p_vaddr ph mod 0x1000) + unat (p_memsz ph) \<le> 2 ^ 64 - 0x1000 \<longrightarrow>
                  unat (p_vaddr ph) + unat (p_memsz ph)
                    \<le> unat (virtAddress (load_segment ph))
                      + unat (virtLength (load_segment ph))))"
proof -
  from assms have
    "read_phdrs \<lparr>imagePtr = image_ptr, entry = e_entry ehdr, dynamic = 0, segments = []\<rparr>
       (map phdr_at [0..<unat (e_phnum ehdr)])
       = Inr object"
    by (simp add: readObject_def split: if_splits)
  from read_phdrs_segments [OF this] show ?thesis
    by (simp add: virtAddress_load_segment [symmetric] virtLength_page_aligned
        fileDisplacement_load_segment [symmetric] load_segment_covers lessThan_atLeast0)
qed

lemma sample_load_segment:
  "load_segment sample_text_phdr =
     \<lparr>elfType = 1, elfFlags = 5, virtAddress = 0x401000, virtLength = 0x3000,
      fileDisplacement = 0x234, fileOffset = 0x234, fileLength = 0x100\<rparr>"
  by (simp add: load_segment_def sample_text_phdr_def kPageSize_def Let_def)

lemma sample_readObject:
  "readObject 0x10000 sample_ehdr sample_table
     = Inr \<lparr>imagePtr = 0x10000, entry = 0x401000, dynamic = 0x402000,
            segments = [Unique (load_segment sample_text_phdr)]\<rparr>"
  unfolding sample_load_segment
  by (simp add: readObject_def read_phdr_def load_segment_def sample_ehdr_def sample_table_def
      sample_text_phdr_def sample_dynamic_phdr_def PT_LOAD_def PT_DYNAMIC_def PF_R_def
      PF_W_def PF_X_def ET_EXEC_def ET_DYN_def kPageSize_def Let_def upt_rec)

theorem readObject_load_segments_witness:
  "readObject 0x10000 sample_ehdr sample_table
     = Inr \<lparr>imagePtr = 0x10000, entry = 0x401000, dynamic = 0x402000,
            segments = [Unique (load_segment sample_text_phdr)]\<rparr>
   \<and> sample_table 0 = sample_text_phdr
   \<and> 0 < unat (e_phnum sample_ehdr)
   \<and> p_type sample_text_phdr = PT_LOAD
   \<and> unat (p_vaddr sample_text_phdr mod 0x1000) + unat (p_memsz sample_text_phdr)
        \<le> 2 ^ 64 - 0x1000
   \<and> virtAddress (load_segment sample_text_phdr) = 0x401000
   \<and> virtLength (load_segment sample_text_phdr) = 0x3000
   \<and> fileDisplacement (load_segment sample_text_phdr) = 0x234
   \<and> unat (p_vaddr sample_text_phdr) + unat (p_memsz sample_text_phdr)
        \<le> unat (virtAddress (load_segment sample_text_phdr))
          + unat (virtLength (load_segment sample_text_phdr))"
proof -
  note r = sample_readObject
  have t: "p_type sample_text_phdr = PT_LOAD"
    by (simp add: sample_text_phdr_def PT_LOAD_def)
  have b: "unat (p_vaddr sample_text_phdr mod 0x1000) + unat (p_memsz sample_text_phdr)
             \<le> 2 ^ 64 - 0x1000"
    by (simp add: sample_text_phdr_def)
  have i: "sample_table 0 = sample_text_phdr" and n: "0 < unat (e_phnum sample_ehdr)"
    by (simp_all add: sample_table_def sample_ehdr_def)
  then have "sample_text_phdr \<in> sample_table ` {..<unat (e_phnum sample_ehdr)}"
    by (metis imageI lessThan_iff)
  with readObject_load_segments [OF r] t b have
    "unat (p_vaddr sample_text_phdr) + unat (p_memsz sample_text_phdr)
        \<le> unat (virtAddress (load_segment sample_text_phdr))
          + unat (virtLength (load_segment sample_text_phdr))"
    by blast
  with r t b i n show ?thesis
    by (simp add: sample_load_segment)
qed

text \<open>
  C10 as stated fails where the rounding wraps. A \<open>PT_LOAD\<close> header with
  \<open>p_vaddr = 0\<close> and \<open>p_memsz = 2 ^ 64 - 1\<close> passes every check of
  \<^verbatim>\<open>readObject\<close>; its length \<open>2 ^ 64 - 1\<close> is rounded up by one and wraps to
  \<open>virtLength = 0\<close>, so the recorded window is empty and does not reach
  \<open>p_vaddr + p_memsz\<close>, neither in 64-bit arithmetic nor as numbers.
\<close>

theorem readObject_load_segments_counterexample:
  "readObject 0x10000 (sample_ehdr\<lparr>e_phnum := 1\<rparr>) (\<lambda>i. wrapping_phdr)
     = Inr \<lparr>imagePtr = 0x10000, entry = 0x401000, dynamic = 0,
            segments = [Unique (load_segment wrapping_phdr)]\<rparr>
   \<and> p_type wrapping_phdr = PT_LOAD
   \<and> 0 < p_memsz wrapping_phdr
   \<and> virtAddress (load_segment wrapping_phdr) = 0
   \<and> virtLength (load_segment wrapping_phdr) = 0
   \<and> p_vaddr wrapping_phdr + p_memsz wrapping_phdr = 0xFFFFFFFFFFFFFFFF
   \<and> \<not> (p_vaddr wrapping_phdr + p_memsz wrapping_phdr
          \<le> virtAddress (load_segment wrapping_phdr) + virtLength (load_segment wrapping_phdr))
   \<and> \<not> (unat (p_vaddr wrapping_phdr) + unat (p_memsz wrapping_phdr)
          \<le> unat (virtAddress (load_segment wrapping_phdr))
            + unat (virtLength (load_segment wrapping_phdr)))"
  by (simp add: readObject_def read_phdr_def load_segment_def sample_ehdr_def wrapping_phdr_def
      PT_LOAD_def PT_DYNAMIC_def PF_R_def PF_W_def PF_X_def ET_EXEC_def ET_DYN_def
      kPageSize_def Let_def)

section \<open>Kernel data types\<close>

text \<open>
  \<^verbatim>\<open>enum Error { kErrSuccess, kErrBufferTooSmall };\<close> in namespace \<open>thor\<close>. It
  is the only declaration of \<open>Error\<close> among the sources; the completion nodes
  \<open>ManageBase\<close> and \<open>InitiateBase\<close> store a value of this type.
\<close>

datatype Error = kErrSuccess | kErrBufferTooSmall







section \<open>The memory subsystem: \<^verbatim>\<open>usermem.hpp\<close>\<close>

text \<open>
  The structs of \<^verbatim>\<open>usermem.hpp\<close> as records. A private member \<open>_x\<close> of a struct
  \<open>S\<close> is the field \<open>S_x\<close> (an Isabelle name cannot start with an underscore); a
  public member keeps its name, with a prime where the name is taken (\<open>length\<close>).
  Addresses and sizes are 64 bits. A raw pointer is the address it holds; a
  \<open>SharedPtr\<close> is \<open>None\<close> when it is null and the address of its object otherwise.
  \<open>frigg::TicketLock\<close> is not among the sources: the state of a lock is a type
  parameter.
\<close>

type_synonym PhysicalAddr = "64 word"
type_synonym VirtualAddr = "64 word"
type_synonym pointer = "64 word"

record ManageBase =
  ManageBase_error :: Error
  ManageBase_offset :: uintptr_t
  ManageBase_size :: size_t
  ManageBase_worklet :: pointer

record InitiateBase =
  offset :: uintptr_t
  length' :: size_t
  InitiateBase_error :: Error
  InitiateBase_worklet :: pointer
  progress :: size_t

text \<open>
  \<open>ManageList\<close> and \<open>InitiateList\<close> are \<open>frg::intrusive_list\<close>s linked through the
  \<open>processQueueItem\<close> hook of the nodes: the nodes of a list, from front to back.
\<close>

type_synonym ManageList = "ManageBase list"
type_synonym InitiateList = "InitiateBase list"

text \<open>\<^verbatim>\<open>enum LoadState { kStateMissing, kStateLoading, kStateLoaded };\<close>\<close>

datatype LoadState = kStateMissing | kStateLoading | kStateLoaded

record 'lock ManagedSpace =
  mutex :: 'lock
  physicalPages :: "PhysicalAddr list"
  loadState :: "LoadState list"
  initiateLoadQueue :: InitiateList
  pendingLoadQueue :: InitiateList
  completedLoadQueue :: InitiateList
  submittedManageQueue :: ManageList
  completedManageQueue :: ManageList

lemma UNIV_LoadState: "(UNIV :: LoadState set) = {kStateMissing, kStateLoading, kStateLoaded}"
proof -
  have "s \<in> {kStateMissing, kStateLoading, kStateLoaded}" for s
    by (cases s) simp_all
  then show ?thesis by blast
qed

text \<open>
  What the declarations give: a load state is one of the three distinct values
  \<open>kStateMissing\<close>, \<open>kStateLoading\<close>, \<open>kStateLoaded\<close>, and a \<open>ManagedSpace\<close> is
  determined by its eight members. The constructor, \<open>progressLoads\<close> and
  \<open>isComplete\<close> are declared only: that the two vectors have the same length, that
  the lists are used first-in first-out and that the lock is held around every access
  is not a property of these declarations.
\<close>

lemma ManagedSpace_members:
  fixes ms ms' :: "'lock ManagedSpace"
  shows "set (loadState ms) \<subseteq> {kStateMissing, kStateLoading, kStateLoaded}
       \<and> distinct [kStateMissing, kStateLoading, kStateLoaded]
       \<and> card (UNIV :: LoadState set) = 3
       \<and> (ms = ms' \<longleftrightarrow>
            mutex ms = mutex ms'
          \<and> physicalPages ms = physicalPages ms'
          \<and> loadState ms = loadState ms'
          \<and> initiateLoadQueue ms = initiateLoadQueue ms'
          \<and> pendingLoadQueue ms = pendingLoadQueue ms'
          \<and> completedLoadQueue ms = completedLoadQueue ms'
          \<and> submittedManageQueue ms = submittedManageQueue ms'
          \<and> completedManageQueue ms = completedManageQueue ms')"
proof -
  have "set (loadState ms) \<subseteq> {kStateMissing, kStateLoading, kStateLoaded}"
    unfolding UNIV_LoadState [symmetric] by (rule subset_UNIV)
  moreover have "card (UNIV :: LoadState set) = 3"
    by (simp add: UNIV_LoadState)
  moreover have "ms = ms' \<longleftrightarrow>
            mutex ms = mutex ms'
          \<and> physicalPages ms = physicalPages ms'
          \<and> loadState ms = loadState ms'
          \<and> initiateLoadQueue ms = initiateLoadQueue ms'
          \<and> pendingLoadQueue ms = pendingLoadQueue ms'
          \<and> completedLoadQueue ms = completedLoadQueue ms'
          \<and> submittedManageQueue ms = submittedManageQueue ms'
          \<and> completedManageQueue ms = completedManageQueue ms'"
    by (cases ms, cases ms') auto
  ultimately show ?thesis by simp
qed

subsection \<open>Fault nodes and \<^verbatim>\<open>AddressSpace::handleFault\<close>\<close>

text \<open>A pointer to a function (\<^verbatim>\<open>void (*)(FaultNode *)\<close>) is the address of its code.\<close>

type_synonym callback = "64 word"

record FetchNode =
  FetchNode_fetched :: callback
  FetchNode_range :: "PhysicalAddr \<times> size_t"

record FaultNode =
  FaultNode_address :: VirtualAddr
  FaultNode_flags :: "32 word"
  FaultNode_handled :: callback
  FaultNode_resolved :: bool
  FaultNode_mapping :: pointer
  FaultNode_fetch :: FetchNode
  FaultNode_bundleOffset :: uintptr_t

text \<open>
  \<^verbatim>\<open>FaultNode() : _resolved{false} { }\<close>: the constructor initialises \<open>_resolved\<close>
  and leaves every other member as the storage of the node holds it.
\<close>

definition FaultNode_ctor :: "FaultNode \<Rightarrow> FaultNode" where
  "FaultNode_ctor storage = storage\<lparr>FaultNode_resolved := False\<rparr>"

text \<open>\<^verbatim>\<open>bool resolved() { return _resolved; }\<close>\<close>

definition resolved :: "FaultNode \<Rightarrow> bool" where
  "resolved node = FaultNode_resolved node"

text \<open>The members of \<open>struct Mapping\<close>, and the flags the fault path looks at.\<close>

record Mapping =
  Mapping_owner :: pointer
  Mapping_address :: VirtualAddr
  Mapping_length :: size_t
  Mapping_flags :: "32 word"

definition protRead :: "32 word" where "protRead = 0x10"
definition protWrite :: "32 word" where "protWrite = 0x20"
definition protExecute :: "32 word" where "protExecute = 0x40"

definition kFaultWrite :: "32 word" where "kFaultWrite = push_bit 1 1"
definition kFaultExecute :: "32 word" where "kFaultExecute = push_bit 2 1"

text \<open>
  A mapping covers an address of its half-open interval
  \<open>[address, address + length)\<close>.
\<close>

definition covers :: "Mapping \<Rightarrow> VirtualAddr \<Rightarrow> bool" where
  "covers m a \<longleftrightarrow>
     unat (Mapping_address m) \<le> unat a
   \<and> unat a < unat (Mapping_address m) + unat (Mapping_length m)"

text \<open>
  Modelled from the spec: \<^verbatim>\<open>AddressSpace::_getMapping\<close> is declared in
  \<^verbatim>\<open>usermem.hpp\<close> and its body is not among the sources. The spec: "look up the
  covering mapping". The mapping tree is the list of its mappings in address order;
  a null result is \<open>None\<close>.
\<close>

definition getMapping :: "Mapping list \<Rightarrow> VirtualAddr \<Rightarrow> Mapping option" where
  "getMapping mappings address = find (\<lambda>m. covers m address) mappings"

text \<open>
  Modelled from the spec: \<^verbatim>\<open>Mapping::handleFault\<close> is declared (pure virtual, with
  overrides in \<open>NormalMapping\<close> and \<open>CowMapping\<close>) and no body is among the sources.
  The spec: "resolve range for the faulting page, fetch one page from the bundle, then
  call \<open>ClientPageSpace.map\<close> [...]; set \<open>node.resolved = true\<close> and post", and
  "\<open>OutOfMemory\<close> during fault handling is reported as an unresolved fault". The bundle
  and the page table are outside the model: \<open>fetch\<close> gives the physical page the
  bundle delivers for the faulting address, or \<open>None\<close> when it delivers none.
\<close>

definition Mapping_handleFault ::
  "(Mapping \<Rightarrow> VirtualAddr \<Rightarrow> PhysicalAddr option) \<Rightarrow> Mapping \<Rightarrow> FaultNode \<Rightarrow> FaultNode" where
  "Mapping_handleFault fetch m node =
     (case fetch m (FaultNode_address node) of
        None \<Rightarrow> node\<lparr>FaultNode_resolved := False\<rparr>
      | Some physical \<Rightarrow>
          node\<lparr>FaultNode_fetch := (FaultNode_fetch node)\<lparr>FetchNode_range := (physical, kPageSize)\<rparr>,
               FaultNode_resolved := True\<rparr>)"

text \<open>
  Modelled from the spec: \<^verbatim>\<open>AddressSpace::handleFault\<close> is declared in
  \<^verbatim>\<open>usermem.hpp\<close> and its body is not among the sources. The spec: "look up the
  covering mapping; if none, complete with \<open>resolved=false\<close>. Else check \<open>fault_flags\<close>
  against mapping prot (write on read-only \<open>\<Rightarrow>\<close> unresolved). Else dispatch to
  \<open>mapping.handle_fault\<close>." The result is the node as it is completed.
\<close>

definition handleFault ::
  "(Mapping \<Rightarrow> VirtualAddr \<Rightarrow> PhysicalAddr option) \<Rightarrow> Mapping list \<Rightarrow> VirtualAddr \<Rightarrow> 32 word
     \<Rightarrow> FaultNode \<Rightarrow> callback \<Rightarrow> FaultNode" where
  "handleFault fetch mappings address flags node handled =
     (let node = node\<lparr>FaultNode_address := address, FaultNode_flags := flags,
                      FaultNode_handled := handled\<rparr>
      in case getMapping mappings address of
           None \<Rightarrow> node\<lparr>FaultNode_resolved := False\<rparr>
         | Some m \<Rightarrow>
             if flags AND kFaultWrite \<noteq> 0 \<and> Mapping_flags m AND protWrite = 0
             then node\<lparr>FaultNode_resolved := False\<rparr>
             else Mapping_handleFault fetch m node)"

lemma getMapping_None:
  "getMapping mappings address = None \<longleftrightarrow> (\<forall>m \<in> set mappings. \<not> covers m address)"
  by (auto simp: getMapping_def find_None_iff)

lemma handleFault_resolved_iff:
  "resolved (handleFault fetch mappings address flags node handled) \<longleftrightarrow>
     (\<exists>m physical. getMapping mappings address = Some m
        \<and> \<not> (flags AND kFaultWrite \<noteq> 0 \<and> Mapping_flags m AND protWrite = 0)
        \<and> fetch m address = Some physical)"
  by (auto simp: handleFault_def Mapping_handleFault_def resolved_def Let_def
      split: option.splits)

text \<open>
  C7. \<open>handleFault\<close> on an address that no mapping covers completes the node with
  \<open>resolved() == false\<close>, whatever the node held before; and a freshly constructed
  \<open>FaultNode\<close> reports \<open>resolved() == false\<close>.
\<close>

theorem handleFault_no_mapping:
  assumes "\<forall>m \<in> set mappings. \<not> covers m address"
  shows "\<not> resolved (handleFault fetch mappings address flags node handled)
       \<and> \<not> resolved (FaultNode_ctor storage)"
proof -
  from assms have "getMapping mappings address = None"
    by (simp add: getMapping_None)
  then show ?thesis
    by (simp add: handleFault_def resolved_def FaultNode_ctor_def Let_def)
qed

text \<open>Example: one read-only mapping of \<open>[0x2000, 0x3000)\<close>, a node whose storage
  happens to hold \<open>_resolved = true\<close>, and a fault at \<open>0x5000\<close>.\<close>

definition sample_mapping :: Mapping where
  "sample_mapping =
     \<lparr>Mapping_owner = 0x100, Mapping_address = 0x2000, Mapping_length = 0x1000,
      Mapping_flags = 0x12\<rparr>"

definition stale_node :: FaultNode where
  "stale_node =
     \<lparr>FaultNode_address = 0, FaultNode_flags = 0, FaultNode_handled = 0,
      FaultNode_resolved = True, FaultNode_mapping = 0,
      FaultNode_fetch = \<lparr>FetchNode_fetched = 0, FetchNode_range = (0, 0)\<rparr>,
      FaultNode_bundleOffset = 0\<rparr>"

theorem handleFault_no_mapping_witness:
  "\<not> covers sample_mapping 0x5000
   \<and> resolved stale_node
   \<and> \<not> resolved (handleFault (\<lambda>m a. Some 0x7000) [sample_mapping] 0x5000 0 stale_node 0x400)
   \<and> \<not> resolved (FaultNode_ctor stale_node)"
proof -
  have c: "\<not> covers sample_mapping 0x5000"
    by (simp add: covers_def sample_mapping_def)
  then have "\<forall>m \<in> set [sample_mapping]. \<not> covers m 0x5000"
    by simp
  from handleFault_no_mapping [OF this] c show ?thesis
    by (simp add: resolved_def stale_node_def)
qed

subsection \<open>Copy-on-write bundles\<close>

text \<open>
  The members of \<open>struct CowBundle\<close>. \<open>_pages\<close> is an
  \<open>frg::rcu_radixtree<std::atomic<PhysicalAddr>>\<close>: a sparse map from page indices
  to physical pages. \<open>ptrdiff_t\<close> is a signed 64-bit integer, kept as its bits.
\<close>

record 'lock CowBundle =
  CowBundle_mutex :: 'lock
  CowBundle_superRoot :: "pointer option"
  CowBundle_superChain :: "pointer option"
  CowBundle_superOffset :: "64 word"
  CowBundle_pages :: "64 word \<rightharpoonup> PhysicalAddr"
  CowBundle_copy :: "pointer option"

text \<open>
  Modelled from the spec: the two constructors of \<open>CowBundle\<close> are declared in
  \<^verbatim>\<open>usermem.hpp\<close> and their bodies are not among the sources. The spec: a
  \<open>CowBundle\<close> "represents either (a) a copy-on-write view over a root \<open>VirtualView\<close>
  or (b) a copy-on-write layer over a parent CowBundle. Fields: the parent reference
  (exactly one of the two variants), a window offset, and a sparse map
  \<open>page_index \<rightarrow> physical_page\<close> for locally owned copies." The constructor is handed
  a view or a parent bundle (the object a non-null \<open>SharedPtr\<close> refers to), and a
  new bundle owns no copies. \<open>lock\<close> is the state of a new lock.
\<close>

definition CowBundle_of_view :: "'lock \<Rightarrow> pointer \<Rightarrow> 64 word \<Rightarrow> size_t \<Rightarrow> 'lock CowBundle" where
  "CowBundle_of_view lock view offs size' =
     \<lparr>CowBundle_mutex = lock, CowBundle_superRoot = Some view, CowBundle_superChain = None,
      CowBundle_superOffset = offs, CowBundle_pages = Map.empty, CowBundle_copy = None\<rparr>"

definition CowBundle_of_chain :: "'lock \<Rightarrow> pointer \<Rightarrow> 64 word \<Rightarrow> size_t \<Rightarrow> 'lock CowBundle" where
  "CowBundle_of_chain lock chain offs size' =
     \<lparr>CowBundle_mutex = lock, CowBundle_superRoot = None, CowBundle_superChain = Some chain,
      CowBundle_superOffset = offs, CowBundle_pages = Map.empty, CowBundle_copy = None\<rparr>"

text \<open>
  Modelled from the spec: \<^verbatim>\<open>CowBundle::peekRange\<close> is declared only. The spec:
  "under lock, if a local copy exists, return it; otherwise return null (never peeks
  the parent)". Null is \<open>None\<close>; the page index of an offset is the offset divided by
  the page size.
\<close>

definition CowBundle_peekRange :: "'lock CowBundle \<Rightarrow> uintptr_t \<Rightarrow> PhysicalAddr option" where
  "CowBundle_peekRange bundle offs = CowBundle_pages bundle (offs div kPageSize)"

text \<open>
  Modelled from the spec: \<^verbatim>\<open>CowBundle::fetchRange\<close> is declared only. The spec:
  "under lock, if a local copy exists, return it synchronously. Otherwise issue a
  fetch to the parent [...]. On completion, allocate a fresh physical page, copy the
  parent page into it, publish it into the local map atomically, and complete the
  caller's node with the new page." The parent and the allocator are outside the
  model: \<open>fresh_page\<close> is the page the allocator hands out. The result is the bundle
  after the fetch and the page the caller's node is completed with.
\<close>

definition CowBundle_fetchRange ::
  "'lock CowBundle \<Rightarrow> uintptr_t \<Rightarrow> PhysicalAddr \<Rightarrow> 'lock CowBundle \<times> PhysicalAddr" where
  "CowBundle_fetchRange bundle offs fresh_page =
     (case CowBundle_pages bundle (offs div kPageSize) of
        Some page \<Rightarrow> (bundle, page)
      | None \<Rightarrow>
          (bundle\<lparr>CowBundle_pages := (CowBundle_pages bundle)(offs div kPageSize \<mapsto> fresh_page)\<rparr>,
           fresh_page))"

text \<open>Exactly one of the two parent references is set.\<close>

definition one_parent :: "'lock CowBundle \<Rightarrow> bool" where
  "one_parent bundle \<longleftrightarrow>
     (CowBundle_superRoot bundle = None) \<noteq> (CowBundle_superChain bundle = None)"

lemma fetchRange_parents:
  "CowBundle_superRoot (fst (CowBundle_fetchRange bundle offs fresh_page))
     = CowBundle_superRoot bundle
   \<and> CowBundle_superChain (fst (CowBundle_fetchRange bundle offs fresh_page))
     = CowBundle_superChain bundle
   \<and> CowBundle_superOffset (fst (CowBundle_fetchRange bundle offs fresh_page))
     = CowBundle_superOffset bundle"
  by (simp add: CowBundle_fetchRange_def split: option.splits)

text \<open>
  C6. A \<open>CowBundle\<close> made by either constructor has exactly one parent reference
  set (the root view or the parent bundle), the window offset it was given and an
  empty map of local copies; and \<open>fetchRange\<close>, the one operation that changes a
  bundle, keeps the parent references and the offset as they are, so a bundle with
  exactly one parent still has exactly one (\<open>peekRange\<close> changes nothing).
\<close>

theorem CowBundle_one_parent:
  "one_parent (CowBundle_of_view lock view offs size')
   \<and> CowBundle_superRoot (CowBundle_of_view lock view offs size') = Some view
   \<and> CowBundle_superOffset (CowBundle_of_view lock view offs size') = offs
   \<and> CowBundle_pages (CowBundle_of_view lock view offs size') = Map.empty
   \<and> one_parent (CowBundle_of_chain lock chain offs size')
   \<and> CowBundle_superChain (CowBundle_of_chain lock chain offs size') = Some chain
   \<and> CowBundle_superOffset (CowBundle_of_chain lock chain offs size') = offs
   \<and> CowBundle_pages (CowBundle_of_chain lock chain offs size') = Map.empty
   \<and> (one_parent bundle \<longrightarrow> one_parent (fst (CowBundle_fetchRange bundle offs' fresh_page)))"
  by (simp add: one_parent_def CowBundle_of_view_def CowBundle_of_chain_def fetchRange_parents)

theorem CowBundle_one_parent_witness:
  "one_parent (CowBundle_of_view () 0x9000 0x2000 0x4000)
   \<and> one_parent (fst (CowBundle_fetchRange (CowBundle_of_view () 0x9000 0x2000 0x4000)
                            0x1800 0x7000))
   \<and> CowBundle_peekRange (fst (CowBundle_fetchRange (CowBundle_of_view () 0x9000 0x2000 0x4000)
                                     0x1800 0x7000)) 0x1000
       = Some 0x7000
   \<and> one_parent (CowBundle_of_chain () 0xA000 0 0x4000)"
  using CowBundle_one_parent
    [of "()" "0x9000" "0x2000" "0x4000" "0xA000" "CowBundle_of_view () 0x9000 0x2000 0x4000"
       "0x1800" "0x7000"]
  by (simp add: one_parent_def CowBundle_of_view_def CowBundle_of_chain_def
      CowBundle_fetchRange_def CowBundle_peekRange_def kPageSize_def)

subsection \<open>The hole tree\<close>

text \<open>
  \<open>struct Hole\<close>: the private \<open>_address\<close> and \<open>_length\<close>, and the public
  \<open>largestHole\<close> ("Largest hole in the subtree of this node"). The constructor
  \<^verbatim>\<open>Hole(address, length) : _address{address}, _length{length}, largestHole{0}\<close>.
\<close>

record Hole =
  Hole_address :: VirtualAddr
  Hole_length :: size_t
  largestHole :: size_t

definition Hole_ctor :: "VirtualAddr \<Rightarrow> size_t \<Rightarrow> Hole" where
  "Hole_ctor address length'' =
     \<lparr>Hole_address = address, Hole_length = length'', largestHole = 0\<rparr>"

text \<open>\<^verbatim>\<open>HoleLess\<close>: \<^verbatim>\<open>a.address() < b.address()\<close>.\<close>

definition HoleLess :: "Hole \<Rightarrow> Hole \<Rightarrow> bool" where
  "HoleLess a b \<longleftrightarrow> Hole_address a < Hole_address b"

text \<open>
  \<open>HoleTree\<close> is a \<open>frigg::rbtree\<close> of holes, linked through the \<open>treeNode\<close> hooks:
  a binary tree with a hole at each node. \<^verbatim>\<open>frigg/rbtree.hpp\<close> is not among the
  sources.
\<close>

datatype HoleTree = Leaf | Node HoleTree Hole HoleTree

text \<open>The \<open>largestHole\<close> of a child, 0 for an absent child.\<close>

fun child_largest :: "HoleTree \<Rightarrow> size_t" where
  "child_largest Leaf = 0"
| "child_largest (Node l h r) = largestHole h"

text \<open>
  Modelled from the spec: \<^verbatim>\<open>HoleAggregator::aggregate\<close> is declared in
  \<^verbatim>\<open>usermem.hpp\<close> (\<^verbatim>\<open>static bool aggregate(Hole *node)\<close>) and its body is not
  among the sources. The spec: "Aggregation rule:
  \<open>largest_hole(n) = max(length(n), largest_hole(left), largest_hole(right))\<close>". The
  node is given with its two children; the result says whether the field changed,
  and holds the node with the field set.
\<close>

definition aggregate :: "HoleTree \<Rightarrow> Hole \<Rightarrow> HoleTree \<Rightarrow> bool \<times> Hole" where
  "aggregate l h r =
     (let size' = max (Hole_length h) (max (child_largest l) (child_largest r))
      in (largestHole h \<noteq> size', h\<lparr>largestHole := size'\<rparr>))"

text \<open>
  Modelled from the spec: the operations of the tree (\<^verbatim>\<open>frigg/rbtree.hpp\<close>) are
  not among the sources. The spec: the holes are "stored in a red-black tree keyed by
  address", and the aggregate is "maintained on every rotation and
  insertion/removal". An insertion puts the hole at the leaf position its address
  gives and aggregates the nodes on the way back to the root; a removal takes the
  hole out (a node with two children is replaced by the leftmost node of its right
  subtree) and aggregates the nodes on the way back to the root; a rotation
  aggregates the two nodes it moves, the lower one first, and leaves the nodes
  above them alone. Colours play no part in the aggregate and are left out.
\<close>

fun HoleTree_insert :: "Hole \<Rightarrow> HoleTree \<Rightarrow> HoleTree" where
  "HoleTree_insert h Leaf = Node Leaf (snd (aggregate Leaf h Leaf)) Leaf"
| "HoleTree_insert h (Node l x r) =
     (if HoleLess h x
      then (let l' = HoleTree_insert h l in Node l' (snd (aggregate l' x r)) r)
      else (let r' = HoleTree_insert h r in Node l (snd (aggregate l x r')) r'))"

fun split_leftmost :: "HoleTree \<Rightarrow> Hole \<Rightarrow> HoleTree \<Rightarrow> Hole \<times> HoleTree" where
  "split_leftmost Leaf x r = (x, r)"
| "split_leftmost (Node ll lx lr) x r =
     (let (m, l') = split_leftmost ll lx lr in (m, Node l' (snd (aggregate l' x r)) r))"

fun HoleTree_remove :: "Hole \<Rightarrow> HoleTree \<Rightarrow> HoleTree" where
  "HoleTree_remove h Leaf = Leaf"
| "HoleTree_remove h (Node l x r) =
     (if HoleLess h x
      then (let l' = HoleTree_remove h l in Node l' (snd (aggregate l' x r)) r)
      else if HoleLess x h
      then (let r' = HoleTree_remove h r in Node l (snd (aggregate l x r')) r')
      else (case r of
              Leaf \<Rightarrow> l
            | Node rl rx rr \<Rightarrow>
                (let (m, r') = split_leftmost rl rx rr
                 in Node l (snd (aggregate l m r')) r')))"

fun rotateLeft :: "HoleTree \<Rightarrow> HoleTree" where
  "rotateLeft (Node a x (Node b y c)) =
     (let n = Node a (snd (aggregate a x b)) b in Node n (snd (aggregate n y c)) c)"
| "rotateLeft t = t"

fun rotateRight :: "HoleTree \<Rightarrow> HoleTree" where
  "rotateRight (Node (Node a x b) y c) =
     (let n = Node b (snd (aggregate b y c)) c in Node a (snd (aggregate a x n)) n)"
| "rotateRight t = t"

text \<open>A rotation at the root of the tree or at a node further down.\<close>

inductive rotation :: "HoleTree \<Rightarrow> HoleTree \<Rightarrow> bool" where
  rotation_left: "rotation t (rotateLeft t)"
| rotation_right: "rotation t (rotateRight t)"
| rotation_in_left: "rotation l l' \<Longrightarrow> rotation (Node l x r) (Node l' x r)"
| rotation_in_right: "rotation r r' \<Longrightarrow> rotation (Node l x r) (Node l x r')"

text \<open>The trees reachable from the empty tree by insertions, removals and rotations.\<close>

inductive reachable :: "HoleTree \<Rightarrow> bool" where
  reachable_empty: "reachable Leaf"
| reachable_insert: "reachable t \<Longrightarrow> reachable (HoleTree_insert h t)"
| reachable_remove: "reachable t \<Longrightarrow> reachable (HoleTree_remove h t)"
| reachable_rotation: "reachable t \<Longrightarrow> rotation t t' \<Longrightarrow> reachable t'"

text \<open>The invariant: at every node, \<open>largestHole\<close> is the maximum of the node's own
  length and the \<open>largestHole\<close> of its children.\<close>

fun aggregated :: "HoleTree \<Rightarrow> bool" where
  "aggregated Leaf = True"
| "aggregated (Node l h r) \<longleftrightarrow>
     largestHole h = max (Hole_length h) (max (child_largest l) (child_largest r))
   \<and> aggregated l \<and> aggregated r"

lemma aggregated_NodeI:
  "aggregated l \<Longrightarrow> aggregated r \<Longrightarrow> aggregated (Node l (snd (aggregate l h r)) r)"
  by (simp add: aggregate_def Let_def)

lemma aggregated_insert: "aggregated t \<Longrightarrow> aggregated (HoleTree_insert h t)"
proof (induction t)
  case Leaf
  show ?case
    using aggregated_NodeI [of Leaf Leaf h] by simp
next
  case (Node l x r)
  then have "aggregated l" and "aggregated r" and "aggregated (HoleTree_insert h l)"
    and "aggregated (HoleTree_insert h r)"
    by simp_all
  then show ?case
    by (simp add: Let_def aggregated_NodeI del: aggregated.simps)
qed

lemma aggregated_split_leftmost:
  "aggregated l \<Longrightarrow> aggregated r \<Longrightarrow> split_leftmost l x r = (m, t) \<Longrightarrow> aggregated t"
proof (induction l x r arbitrary: m t rule: split_leftmost.induct)
  case (1 x r)
  then show ?case by simp
next
  case (2 ll lx lr x r)
  obtain m' l' where s: "split_leftmost ll lx lr = (m', l')"
    by (cases "split_leftmost ll lx lr")
  from "2.prems"(1) have "aggregated ll" and "aggregated lr"
    by simp_all
  then have "aggregated l'"
    using s by (rule "2.IH")
  moreover from "2.prems"(3) s have "t = Node l' (snd (aggregate l' x r)) r"
    by simp
  ultimately show ?case
    using "2.prems"(2) by (simp add: aggregated_NodeI del: aggregated.simps)
qed

lemma aggregated_remove: "aggregated t \<Longrightarrow> aggregated (HoleTree_remove h t)"
proof (induction t)
  case Leaf
  show ?case by simp
next
  case (Node l x r)
  then have l: "aggregated l" and r: "aggregated r" and l': "aggregated (HoleTree_remove h l)"
    and r': "aggregated (HoleTree_remove h r)"
    by simp_all
  show ?case
  proof (cases "HoleLess h x \<or> HoleLess x h")
    case True
    then show ?thesis
      using l r l' r' by (auto simp: Let_def aggregated_NodeI simp del: aggregated.simps)
  next
    case False
    show ?thesis
    proof (cases r)
      case Leaf
      then show ?thesis using False l by simp
    next
      case (Node rl rx rr)
      obtain m t where s: "split_leftmost rl rx rr = (m, t)"
        by (cases "split_leftmost rl rx rr")
      from r Node have "aggregated rl" and "aggregated rr"
        by simp_all
      then have "aggregated t"
        using s by (rule aggregated_split_leftmost)
      then show ?thesis
        using False Node s l by (simp add: aggregated_NodeI del: aggregated.simps)
    qed
  qed
qed

text \<open>A rotation keeps the invariant and the \<open>largestHole\<close> at the root of the
  rotated subtree, which is why the nodes above need no update.\<close>

lemma rotateLeft_aggregated:
  "aggregated t \<Longrightarrow> aggregated (rotateLeft t) \<and> child_largest (rotateLeft t) = child_largest t"
proof (induction t rule: rotateLeft.induct)
  case (1 a x b y c)
  then show ?case
    by (simp add: aggregate_def Let_def max.assoc max.left_commute)
qed simp_all

lemma rotateRight_aggregated:
  "aggregated t \<Longrightarrow> aggregated (rotateRight t) \<and> child_largest (rotateRight t) = child_largest t"
proof (induction t rule: rotateRight.induct)
  case (1 a x b y c)
  then show ?case
    by (simp add: aggregate_def Let_def max.assoc max.left_commute)
qed simp_all

lemma rotation_aggregated:
  "rotation t t' \<Longrightarrow> aggregated t \<Longrightarrow> aggregated t' \<and> child_largest t' = child_largest t"
proof (induction rule: rotation.induct)
  case (rotation_left t)
  then show ?case by (rule rotateLeft_aggregated)
next
  case (rotation_right t)
  then show ?case by (rule rotateRight_aggregated)
next
  case (rotation_in_left l l' x r)
  then show ?case by simp
next
  case (rotation_in_right r r' l x)
  then show ?case by simp
qed

text \<open>
  C8. In every tree reachable by insertions, removals and rotations, the
  \<open>largestHole\<close> of each node is the maximum of its own length and the
  \<open>largestHole\<close> of its left and right children, 0 standing for an absent child.
\<close>

theorem HoleTree_aggregated:
  assumes "reachable t"
  shows "aggregated t"
  using assms
proof (induction rule: reachable.induct)
  case reachable_empty
  show ?case by simp
next
  case (reachable_insert t h)
  then show ?case by (simp add: aggregated_insert)
next
  case (reachable_remove t h)
  then show ?case by (simp add: aggregated_remove)
next
  case (reachable_rotation t t')
  then show ?case by (simp add: rotation_aggregated)
qed

text \<open>Example: three holes are inserted in address order, the root is rotated left,
  and the middle hole is removed.\<close>

definition sample_holes :: HoleTree where
  "sample_holes =
     HoleTree_remove (Hole_ctor 0x3000 0x2000)
       (rotateLeft
         (HoleTree_insert (Hole_ctor 0x6000 0xA000)
           (HoleTree_insert (Hole_ctor 0x3000 0x2000)
             (HoleTree_insert (Hole_ctor 0x1000 0x1000) Leaf))))"

lemma sample_holes_eq:
  "sample_holes =
     Node (Node Leaf \<lparr>Hole_address = 0x1000, Hole_length = 0x1000, largestHole = 0x1000\<rparr> Leaf)
       \<lparr>Hole_address = 0x6000, Hole_length = 0xA000, largestHole = 0xA000\<rparr>
       Leaf"
  by (simp add: sample_holes_def Hole_ctor_def HoleLess_def aggregate_def Let_def)

theorem HoleTree_aggregated_witness:
  "reachable sample_holes \<and> aggregated sample_holes \<and> child_largest sample_holes = 0xA000"
proof -
  have r: "reachable sample_holes"
    unfolding sample_holes_def
    by (intro reachable_remove reachable_rotation [OF _ rotation_left] reachable_insert
        reachable_empty)
  from HoleTree_aggregated [OF r] r show ?thesis
    by (simp add: sample_holes_eq)
qed

end
